theory Spec2Isabelle
  imports Main "HOL-Library.Char_ord" "HOL-Library.List_Lexorder"
begin

section \<open>JavaScript strings\<close>

text \<open>
  A JavaScript string is modelled as a \<^typ>\<open>string\<close>: a list of code units, here the code
  units below 256. \<open>null\<close> is \<^const>\<open>None\<close> of an option type.
\<close>

definition nl :: string where
  "nl = [CHR 0x0A]"

text \<open>String concatenation with a value that may be \<open>null\<close>: \<open>null + 'x'\<close> is \<open>'nullx'\<close>.\<close>

definition str :: "string option \<Rightarrow> string" where
  "str v = (case v of None \<Rightarrow> ''null'' | Some s \<Rightarrow> s)"

text \<open>\<open>s.startsWith(p)\<close>\<close>

fun startsWith :: "string \<Rightarrow> string \<Rightarrow> bool" where
  "startsWith s [] = True"
| "startsWith [] (p # ps) = False"
| "startsWith (c # cs) (p # ps) = (c = p \<and> startsWith cs ps)"

text \<open>\<open>s.endsWith(e)\<close>\<close>

definition endsWith :: "string \<Rightarrow> string \<Rightarrow> bool" where
  "endsWith s e = startsWith (rev s) (rev e)"

text \<open>\<open>s.includes(sub)\<close>: \<open>sub\<close> occurs in \<open>s\<close> at some position.\<close>

fun includes_str :: "string \<Rightarrow> string \<Rightarrow> bool" where
  "includes_str [] sub = (sub = [])"
| "includes_str (c # cs) sub = (startsWith (c # cs) sub \<or> includes_str cs sub)"

text \<open>\<open>s.replace(pat, rep)\<close> with a string pattern: only the first occurrence is replaced.\<close>

fun replace :: "string \<Rightarrow> string \<Rightarrow> string \<Rightarrow> string" where
  "replace [] pat rep = (if pat = [] then rep else [])"
| "replace (c # cs) pat rep =
     (if startsWith (c # cs) pat then rep @ drop (length pat) (c # cs)
      else c # replace cs pat rep)"

text \<open>
  White space as \<open>trim\<close> sees it, among the code units below 256: tab, line feed,
  vertical tab, form feed, carriage return, space and no-break space.
\<close>

definition isWhiteSpace :: "char \<Rightarrow> bool" where
  "isWhiteSpace c \<longleftrightarrow>
     c = CHR 0x09 \<or> c = CHR 0x0A \<or> c = CHR 0x0B \<or> c = CHR 0x0C \<or> c = CHR 0x0D
     \<or> c = CHR 0x20 \<or> c = CHR 0xA0"

definition trimLeft :: "string \<Rightarrow> string" where
  "trimLeft s = dropWhile isWhiteSpace s"

definition trim :: "string \<Rightarrow> string" where
  "trim s = rev (dropWhile isWhiteSpace (rev (dropWhile isWhiteSpace s)))"

text \<open>
  \<open>s.split('\n')\<close>: the pieces between line feeds; an empty string gives one empty piece.
  \<open>splitAcc\<close> carries the piece read so far.
\<close>

fun splitAcc :: "string \<Rightarrow> string \<Rightarrow> string list" where
  "splitAcc cur [] = [cur]"
| "splitAcc cur (c # cs) =
     (if c = CHR 0x0A then cur # splitAcc [] cs else splitAcc (cur @ [c]) cs)"

definition split :: "string \<Rightarrow> string list" where
  "split s = splitAcc [] s"

section \<open>Helpers of \<open>./helpers\<close>\<close>

text \<open>
  Modelled from the spec: \<open>removeEnd\<close> of \<open>./helpers\<close>, whose source is not part of the
  files at hand. The spec has it strip a trailing newline or blank line: the suffix is
  removed once when the text ends with it, and the text is returned as it is otherwise.
\<close>

definition removeEnd :: "string \<Rightarrow> string \<Rightarrow> string" where
  "removeEnd source e =
     (if endsWith source e then take (length source - length e) source else source)"

text \<open>
  Modelled from the spec: \<open>isBlank\<close> of \<open>./helpers\<close>, whose source is not part of the files
  at hand. A blank line is a line that holds nothing but white space.
\<close>

definition isBlank :: "string \<Rightarrow> bool" where
  "isBlank s = list_all isWhiteSpace s"


section \<open>ClassPart\<close>

record ClassPart =
  name :: string
  startsAt :: "int option"
  endsAt :: "int option"
  current :: "string option"
  replacement :: "string option"


section \<open>DartClassProperty\<close>

record DartClassProperty =
  rawType :: string
  jsonName :: string
  name :: string
  lineNumber :: int
  isFinal :: bool
  isConst :: bool
  isEnum :: bool

text \<open>
  The constructor. \<open>toVarName\<close> of \<open>./helpers\<close> is not part of the files at hand and is a
  parameter of the model.
\<close>

definition newDartClassProperty ::
  "(string \<Rightarrow> string) \<Rightarrow> string \<Rightarrow> string \<Rightarrow> int \<Rightarrow> bool \<Rightarrow> bool \<Rightarrow> DartClassProperty" where
  "newDartClassProperty toVarName ty nm ln fin cst =
     \<lparr> rawType = ty, jsonName = nm, name = toVarName nm, lineNumber = ln,
       isFinal = fin, isConst = cst, isEnum = False \<rparr>"

definition isCollectionType :: "DartClassProperty \<Rightarrow> string \<Rightarrow> bool" where
  "isCollectionType p ty \<longleftrightarrow> rawType p = ty \<or> startsWith (rawType p) (ty @ ''<'')"

definition isNullable :: "DartClassProperty \<Rightarrow> bool" where
  "isNullable p = endsWith (rawType p) ''?''"

definition type :: "DartClassProperty \<Rightarrow> string" where
  "type p = (if isNullable p then removeEnd (rawType p) ''?'' else rawType p)"

definition isList :: "DartClassProperty \<Rightarrow> bool" where
  "isList p = isCollectionType p ''List''"

definition isMap :: "DartClassProperty \<Rightarrow> bool" where
  "isMap p = isCollectionType p ''Map''"

definition isSet :: "DartClassProperty \<Rightarrow> bool" where
  "isSet p = isCollectionType p ''Set''"

definition listType :: "(string \<Rightarrow> string) \<Rightarrow> DartClassProperty \<Rightarrow> DartClassProperty" where
  "listType toVarName p =
     (if isList p \<or> isSet p then
        (let collection = (if isSet p then ''Set'' else ''List'');
             ty = (if rawType p = collection then ''dynamic''
                   else replace (replace (rawType p) (collection @ ''<'') '''') ''>'' '''')
         in newDartClassProperty toVarName ty (DartClassProperty.name p) (lineNumber p)
              (isFinal p) False)
      else p)"

definition isInt :: "(string \<Rightarrow> string) \<Rightarrow> DartClassProperty \<Rightarrow> bool" where
  "isInt toVarName p \<longleftrightarrow> type (listType toVarName p) = ''int''"

definition isDouble :: "(string \<Rightarrow> string) \<Rightarrow> DartClassProperty \<Rightarrow> bool" where
  "isDouble toVarName p \<longleftrightarrow> type (listType toVarName p) = ''double''"

definition isPrimitive :: "(string \<Rightarrow> string) \<Rightarrow> DartClassProperty \<Rightarrow> bool" where
  "isPrimitive toVarName p =
     (let t = type (listType toVarName p)
      in t = ''String'' \<or> t = ''num'' \<or> t = ''dynamic'' \<or> t = ''bool''
         \<or> isDouble toVarName p \<or> isInt toVarName p \<or> isMap p)"

definition defValue :: "DartClassProperty \<Rightarrow> string" where
  "defValue p =
     (if isList p then ''const []''
      else if isMap p \<or> isSet p then ''const {}''
      else if type p = ''String'' then [CHR 0x27, CHR 0x27]
      else if type p = ''num'' then ''0''
      else if type p = ''int'' then ''0''
      else if type p = ''double'' then ''0.0''
      else if type p = ''bool'' then ''false''
      else if type p = ''dynamic'' then ''null''
      else type p @ ''()'')"

section \<open>DartClass\<close>

record DartClass =
  name :: "string option"
  fullGenericType :: string
  superclass :: "string option"
  interfaces :: "string list"
  mixins :: "string list"
  constr :: "string option"
  properties :: "DartClassProperty list"
  startsAtLine :: "int option"
  endsAtLine :: "int option"
  constrStartsAtLine :: "int option"
  constrEndsAtLine :: "int option"
  constrDifferent :: bool
  isArray :: bool
  classContent :: string
  toInsert :: string
  toReplace :: "ClassPart list"
  isLastInFile :: bool
  abstract :: bool

text \<open>The constructor: every field at its default.\<close>

definition newDartClass :: DartClass where
  "newDartClass =
     \<lparr> DartClass.name = None, fullGenericType = [], superclass = None, interfaces = [],
       mixins = [], constr = None, properties = [], startsAtLine = None, endsAtLine = None,
       constrStartsAtLine = None, constrEndsAtLine = None, constrDifferent = False,
       isArray = False, classContent = [], toInsert = [], toReplace = [],
       isLastInFile = False, abstract = False \<rparr>"


definition classDetected :: "DartClass \<Rightarrow> bool" where
  "classDetected c \<longleftrightarrow> startsAtLine c \<noteq> None"

definition hasNamedConstructor :: "DartClass \<Rightarrow> bool" where
  "hasNamedConstructor c =
     (case constr c of
        Some k \<Rightarrow>
          startsWith (trimLeft (replace k ''const'' [])) (str (DartClass.name c) @ ''({'')
      | None \<Rightarrow> True)"


definition hasEnding :: "DartClass \<Rightarrow> bool" where
  "hasEnding c \<longleftrightarrow> endsAtLine c \<noteq> None"

definition hasProperties :: "DartClass \<Rightarrow> bool" where
  "hasProperties c \<longleftrightarrow> length (properties c) > 0"

text \<open>The loop of \<open>uniquePropNames\<close>: \<open>props\<close> holds the names seen so far.\<close>

fun uniqueLoop :: "DartClassProperty list \<Rightarrow> string list \<Rightarrow> bool" where
  "uniqueLoop [] props = True"
| "uniqueLoop (p # ps) props =
     (let n = DartClassProperty.name p
      in if n \<in> set props then False else uniqueLoop ps (props @ [n]))"

definition uniquePropNames :: "DartClass \<Rightarrow> bool" where
  "uniquePropNames c = uniqueLoop (properties c) []"

definition isValid :: "DartClass \<Rightarrow> bool" where
  "isValid c \<longleftrightarrow> classDetected c \<and> hasEnding c \<and> hasProperties c \<and> uniquePropNames c"


definition issue :: "DartClass \<Rightarrow> string" where
  "issue c =
     (let def = str (DartClass.name c) @ '' couldn'' @ [CHR 0x27]
                @ ''t be converted to a data class: ''
      in if \<not> hasProperties c then def @ ''Class must have at least one property!''
         else if \<not> hasEnding c then def @ ''Class has no ending!''
         else if \<not> uniquePropNames c
           then def @ ''Class doesn'' @ [CHR 0x27] @ ''t have unique property names!''
         else removeEnd def '': '' @ ''.'')"









section \<open>Imports\<close>

record Imports =
  "values" :: "string list"
  startAtLine :: "int option"
  endAtLine :: "int option"
  rawStatements :: string
  projectName :: "string option"

definition hasImports :: "Imports \<Rightarrow> bool" where
  "hasImports im \<longleftrightarrow> length (values im) > 0"

text \<open>
  The loop of \<open>readImports\<close> from index \<open>i\<close>; a \<open>break\<close> returns the state as it is.
\<close>

function readImportsLoop :: "string list \<Rightarrow> nat \<Rightarrow> Imports \<Rightarrow> Imports" where
  "readImportsLoop lines i im =
     (if i < length lines then
        (let line = trim (lines ! i);
             isLast = (int i = int (length lines) - 1)
         in if startsWith line ''import'' \<or> startsWith line ''export'' \<or> startsWith line ''part''
            then
              (let im1 = im\<lparr> values := values im @ [line],
                             rawStatements := rawStatements im @ line @ nl \<rparr>;
                   im2 = (if startAtLine im1 = None
                          then im1\<lparr> startAtLine := Some (int i + 1) \<rparr> else im1)
               in if isLast then im2\<lparr> endAtLine := Some (int i + 1) \<rparr>
                  else readImportsLoop lines (i + 1) im2)
            else
              (let isInitialComment = (startsWith line ''//'' \<and> length (values im) = 0);
                   importsSectionEnded =
                     (\<not> (isInitialComment \<or> startsWith line ''library'' \<or> isBlank line))
               in if isLast \<or> importsSectionEnded then
                    (if startAtLine im \<noteq> None then
                       (if i > 0 \<and> isBlank (lines ! (i - 1))
                        then im\<lparr> endAtLine := Some (int i - 1) \<rparr>
                        else im\<lparr> endAtLine := Some (int i) \<rparr>)
                     else im)
                  else readImportsLoop lines (i + 1) im))
      else im)"
  by pat_completeness auto
termination
  by (relation "measure (\<lambda>(lines, i, im). length lines - i)") auto

definition readImports :: "string \<Rightarrow> Imports \<Rightarrow> Imports" where
  "readImports text im = (if text = [] then im else readImportsLoop (split text) 0 im)"

text \<open>The constructor.\<close>

definition newImports :: "string \<Rightarrow> string option \<Rightarrow> Imports" where
  "newImports text pn =
     readImports text
       \<lparr> values = [], startAtLine = None, endAtLine = None, rawStatements = [],
         projectName = pn \<rparr>"

text \<open>
  The workspace name of \<open>formatted\<close>. When no project name is given, the editor is asked
  for the workspace folder of the current document: \<open>folder\<close> is the base name of that
  folder, \<open>None\<close> when the document is not a file or lies in no workspace folder. The
  editor is outside the files at hand, so \<open>folder\<close> is a parameter of the model.
\<close>

definition workspaceOf :: "string option \<Rightarrow> Imports \<Rightarrow> string option" where
  "workspaceOf folder im =
     (let workspace = projectName im
      in if workspace = None \<or> length (str workspace) = 0 then
           (case folder of Some f \<Rightarrow> Some (replace f ''-'' ''_'') | None \<Rightarrow> workspace)
         else workspace)"

record ImportBuckets =
  dartImports :: "string list"
  packageImports :: "string list"
  packageLocalImports :: "string list"
  relativeImports :: "string list"
  partStatements :: "string list"
  exports :: "string list"

text \<open>The first loop of \<open>formatted\<close>: each statement is pushed on one of the six lists.\<close>

fun bucketLoop :: "string option \<Rightarrow> string list \<Rightarrow> ImportBuckets \<Rightarrow> ImportBuckets" where
  "bucketLoop workspace [] b = b"
| "bucketLoop workspace (statement # rest) b =
     bucketLoop workspace rest
       (if startsWith statement ''export'' then b\<lparr> exports := exports b @ [statement] \<rparr>
        else if startsWith statement ''part''
          then b\<lparr> partStatements := partStatements b @ [statement] \<rparr>
        else if includes_str statement ''dart:''
          then b\<lparr> dartImports := dartImports b @ [statement] \<rparr>
        else if workspace \<noteq> None \<and> includes_str statement (''package:'' @ str workspace)
          then b\<lparr> packageLocalImports := packageLocalImports b @ [statement] \<rparr>
        else if includes_str statement ''package:''
          then b\<lparr> packageImports := packageImports b @ [statement] \<rparr>
        else b\<lparr> relativeImports := relativeImports b @ [statement] \<rparr>)"

text \<open>The loop of \<open>addImports\<close> over the sorted statements.\<close>

fun addImportsLoop :: "string list \<Rightarrow> string \<Rightarrow> string" where
  "addImportsLoop [] formattedStatements = formattedStatements"
| "addImportsLoop [statement] formattedStatements =
     formattedStatements @ statement @ nl @ nl"
| "addImportsLoop (statement # rest) formattedStatements =
     addImportsLoop rest (formattedStatements @ statement @ nl)"

text \<open>
  \<open>statements.sort()\<close> orders strings by their code units, which is the lexicographic
  order of \<^typ>\<open>string\<close>.
\<close>

definition addImports :: "string list \<Rightarrow> string \<Rightarrow> string" where
  "addImports statements formattedStatements =
     addImportsLoop (sort statements) formattedStatements"

definition formatted :: "string option \<Rightarrow> Imports \<Rightarrow> string" where
  "formatted folder im =
     (if \<not> hasImports im then []
      else
        (let workspace = workspaceOf folder im;
             b = bucketLoop workspace (values im)
                   \<lparr> dartImports = [], packageImports = [], packageLocalImports = [],
                     relativeImports = [], partStatements = [], exports = [] \<rparr>;
             f1 = addImports (dartImports b) [];
             f2 = addImports (packageImports b) f1;
             f3 = addImports (packageLocalImports b) f2;
             f4 = addImports (relativeImports b) f3;
             f5 = addImports (exports b) f4;
             f6 = addImports (partStatements b) f5
         in removeEnd f6 nl))"


section \<open>Notions for the statements about Imports\<close>

text \<open>
  The six lists of \<open>formatted\<close>, in the order in which they are written out.
\<close>

datatype Bucket =
  DartImport | PackageImport | PackageLocalImport | RelativeImport | ExportStatement
  | PartStatement

text \<open>
  The list on which the first loop of \<open>formatted\<close> pushes a statement: the tests of the
  loop, in their order, as a function of the statement.
\<close>

definition bucketOf :: "string option \<Rightarrow> string \<Rightarrow> Bucket" where
  "bucketOf workspace statement =
     (if startsWith statement ''export'' then ExportStatement
      else if startsWith statement ''part'' then PartStatement
      else if includes_str statement ''dart:'' then DartImport
      else if workspace \<noteq> None \<and> includes_str statement (''package:'' @ str workspace)
        then PackageLocalImport
      else if includes_str statement ''package:'' then PackageImport
      else RelativeImport)"

text \<open>
  What the spec says of one bucket: its statements, one per line, followed by one blank
  line when the bucket is not empty.
\<close>

definition bucketBlock :: "string list \<Rightarrow> string" where
  "bucketBlock b = (if b = [] then [] else concat (map (\<lambda>s. s @ nl) b) @ nl)"

definition bucketOrder :: "Bucket list" where
  "bucketOrder =
     [DartImport, PackageImport, PackageLocalImport, RelativeImport, ExportStatement,
      PartStatement]"

text \<open>
  The statements of one bucket, sorted.
\<close>

definition sortedBucket :: "string option \<Rightarrow> string list \<Rightarrow> Bucket \<Rightarrow> string list" where
  "sortedBucket workspace statements k =
     sort (filter (\<lambda>s. bucketOf workspace s = k) statements)"

text \<open>
  The formatted text in the spec's words: the sorted buckets in the fixed order, each
  non-empty one followed by a blank line, the trailing blank line stripped.
\<close>

definition formattedSpec :: "string option \<Rightarrow> string list \<Rightarrow> string" where
  "formattedSpec workspace statements =
     removeEnd (concat (map (\<lambda>k. bucketBlock (sortedBucket workspace statements k)) bucketOrder)) nl"

text \<open>
  A text that \<open>trim\<close> leaves as it is: no white space at either end.
\<close>

definition trimmed :: "string \<Rightarrow> bool" where
  "trimmed s \<longleftrightarrow> s = [] \<or> (\<not> isWhiteSpace (hd s) \<and> \<not> isWhiteSpace (last s))"

text \<open>
  What \<open>readImports\<close> stores as a statement: one trimmed line that starts with one of
  the three keywords.
\<close>

definition stmtOk :: "string \<Rightarrow> bool" where
  "stmtOk s \<longleftrightarrow>
     CHR 0x0A \<notin> set s \<and> trimmed s
     \<and> (startsWith s ''import'' \<or> startsWith s ''export'' \<or> startsWith s ''part'')"

text \<open>
  The test of the first branch of the loop of \<open>readImports\<close>.
\<close>

definition isStatement :: "string \<Rightarrow> bool" where
  "isStatement line \<longleftrightarrow>
     startsWith line ''import'' \<or> startsWith line ''export'' \<or> startsWith line ''part''"

text \<open>
  The state of \<open>readImports\<close> after a statement is stored at index \<open>i\<close>.
\<close>

definition pushStatement :: "nat \<Rightarrow> string \<Rightarrow> Imports \<Rightarrow> Imports" where
  "pushStatement i line im =
     (let im1 = im\<lparr> values := values im @ [line],
                    rawStatements := rawStatements im @ line @ nl \<rparr>
      in if startAtLine im1 = None then im1\<lparr> startAtLine := Some (int i + 1) \<rparr> else im1)"

text \<open>
  The lines of the buckets: each non-empty bucket and the empty line after it.
\<close>

definition blockLines :: "string list list \<Rightarrow> string list" where
  "blockLines Bs = concat (map (\<lambda>b. if b = [] then [] else b @ [[]]) Bs)"

text \<open>
  A source text with a leading comment, statements of the six kinds, one of them
  indented, and a class after them; and the formatted text of its statements for the
  project \<open>app\<close>.
\<close>

definition sampleImports :: string where
  "sampleImports =
     ''// header'' @ nl @ ''import 'b.dart';'' @ nl @ ''export 'e.dart';'' @ nl
     @ ''import 'package:app/x.dart';'' @ nl @ ''part 'p.dart';'' @ nl
     @ ''  import 'package:flutter/material.dart';'' @ nl @ ''import 'dart:io';'' @ nl
     @ ''import 'dart:async';'' @ nl @ nl @ ''class A {}''"

definition sampleFormatted :: string where
  "sampleFormatted =
     ''import 'dart:async';'' @ nl @ ''import 'dart:io';'' @ nl @ nl
     @ ''import 'package:flutter/material.dart';'' @ nl @ nl
     @ ''import 'package:app/x.dart';'' @ nl @ nl
     @ ''import 'b.dart';'' @ nl @ nl
     @ ''export 'e.dart';'' @ nl @ nl
     @ ''part 'p.dart';'' @ nl"

section \<open>Notions for the statements about generateClassReplacement\<close>




section \<open>Facts about the string operations\<close>

lemma startsWith_iff: "startsWith s p \<longleftrightarrow> (\<exists>r. s = p @ r)"
  by (induction s p rule: startsWith.induct) auto

lemma startsWith_append: "startsWith (p @ r) p"
  by (simp add: startsWith_iff)

lemma endsWith_iff: "endsWith s e \<longleftrightarrow> (\<exists>r. s = r @ e)"
proof
  assume "endsWith s e"
  then obtain r where "rev s = rev e @ r"
    by (auto simp: endsWith_def startsWith_iff)
  then have "s = rev r @ e"
    by (metis rev_append rev_rev_ident)
  then show "\<exists>r. s = r @ e" ..
next
  assume "\<exists>r. s = r @ e"
  then show "endsWith s e"
    by (auto simp: endsWith_def startsWith_iff)
qed

lemma removeEnd_append: "removeEnd (r @ e) e = r"
  by (simp add: removeEnd_def endsWith_iff)


section \<open>Properties of DartClass and DartClassProperty\<close>

lemma uniqueLoop_distinct:
  "uniqueLoop ps props \<longleftrightarrow>
     distinct (map DartClassProperty.name ps) \<and> set (map DartClassProperty.name ps) \<inter> set props = {}"
  by (induction ps arbitrary: props) (auto simp: Let_def)

lemma collection_exclusive:
  "isMap p \<or> isSet p \<Longrightarrow> \<not> isList p"
  by (auto simp: isMap_def isSet_def isList_def isCollectionType_def startsWith_iff)

lemma replace_gt: "CHR ''>'' \<notin> set e \<Longrightarrow> replace (e @ ''>'') ''>'' [] = e"
  by (induction e) auto

lemma replace_prefix: "pat \<noteq> [] \<Longrightarrow> replace (pat @ r) pat rep = rep @ r"
  by (cases pat) (auto simp: startsWith_append)

text \<open>
  C3. A class is valid exactly when its start was detected, it has an ending, it has at
  least one property and the names of its properties are pairwise different. A class in
  which two properties have the same name is never valid.
\<close>

theorem isValid_iff:
  "(isValid c \<longleftrightarrow>
      startsAtLine c \<noteq> None \<and> endsAtLine c \<noteq> None \<and> properties c \<noteq> []
      \<and> distinct (map DartClassProperty.name (properties c)))
   \<and> (\<forall>i j. i < j \<and> j < length (properties c)
          \<and> DartClassProperty.name (properties c ! i) = DartClassProperty.name (properties c ! j)
        \<longrightarrow> \<not> isValid c)"
proof -
  have eq: "isValid c \<longleftrightarrow>
      startsAtLine c \<noteq> None \<and> endsAtLine c \<noteq> None \<and> properties c \<noteq> []
      \<and> distinct (map DartClassProperty.name (properties c))"
    by (simp add: isValid_def classDetected_def hasEnding_def hasProperties_def
        uniquePropNames_def uniqueLoop_distinct)
  have "\<not> distinct (map DartClassProperty.name (properties c))"
    if "i < j" "j < length (properties c)"
      "DartClassProperty.name (properties c ! i) = DartClassProperty.name (properties c ! j)"
    for i j
  proof -
    have "map DartClassProperty.name (properties c) ! i = map DartClassProperty.name (properties c) ! j"
      using that by simp
    moreover have "i < length (map DartClassProperty.name (properties c))"
      "j < length (map DartClassProperty.name (properties c))" "i \<noteq> j"
      using that by simp_all
    ultimately show ?thesis
      unfolding distinct_conv_nth by blast
  qed
  with eq show ?thesis by blast
qed

theorem isValid_iff_witness:
  "(0::nat) < 1 \<and> 1 < length [newDartClassProperty id ''int'' ''id'' 2 True False,
                               newDartClassProperty id ''String'' ''id'' 3 True False]
   \<and> \<not> isValid (newDartClass\<lparr> DartClass.name := Some ''Foo'',
          properties := [newDartClassProperty id ''int'' ''id'' 2 True False,
                         newDartClassProperty id ''String'' ''id'' 3 True False],
          startsAtLine := Some 1, endsAtLine := Some 4 \<rparr>)"
  using isValid_iff [of "newDartClass\<lparr> DartClass.name := Some ''Foo'',
          properties := [newDartClassProperty id ''int'' ''id'' 2 True False,
                         newDartClassProperty id ''String'' ''id'' 3 True False],
          startsAtLine := Some 1, endsAtLine := Some 4 \<rparr>"]
  by (simp add: newDartClassProperty_def)

text \<open>
  C4. The message of \<open>issue\<close> follows a fixed priority: no property, then no ending,
  then names that are not unique, then the generic message. \<open>issue\<close> is a total function
  of the class: every branch returns a message.
\<close>

theorem issue_priority:
  "issue c =
     (if properties c = [] then
        str (DartClass.name c) @ '' couldn't be converted to a data class: Class must have at least one property!''
      else if endsAtLine c = None then
        str (DartClass.name c) @ '' couldn't be converted to a data class: Class has no ending!''
      else if \<not> distinct (map DartClassProperty.name (properties c)) then
        str (DartClass.name c) @ '' couldn't be converted to a data class: Class doesn't have unique property names!''
      else str (DartClass.name c) @ '' couldn't be converted to a data class.'')"
proof -
  have "removeEnd (str (DartClass.name c) @ '' couldn't be converted to a data class: '') '': ''
        = str (DartClass.name c) @ '' couldn't be converted to a data class''"
    using removeEnd_append [of "str (DartClass.name c) @ '' couldn't be converted to a data class''" "'': ''"]
    by simp
  then show ?thesis
    by (simp add: issue_def Let_def hasProperties_def hasEnding_def uniquePropNames_def
        uniqueLoop_distinct)
qed

theorem issue_priority_witness:
  "issue (newDartClass\<lparr> DartClass.name := Some ''Foo'',
            properties := [newDartClassProperty id ''int'' ''id'' 2 True False,
                           newDartClassProperty id ''String'' ''id'' 3 True False],
            startsAtLine := Some 1, endsAtLine := Some 4 \<rparr>)
     = ''Foo couldn't be converted to a data class: Class doesn't have unique property names!''"
  using issue_priority [of "newDartClass\<lparr> DartClass.name := Some ''Foo'',
            properties := [newDartClassProperty id ''int'' ''id'' 2 True False,
                           newDartClassProperty id ''String'' ''id'' 3 True False],
            startsAtLine := Some 1, endsAtLine := Some 4 \<rparr>"]
  by (simp add: newDartClassProperty_def str_def newDartClass_def)

text \<open>
  C7. The default value is \<open>const []\<close> for a List, \<open>const {}\<close> for a Map or a Set, and
  otherwise given by the table on the type without its question mark. A property of raw
  type \<open>List<int>\<close> is a list, its element type is \<open>int\<close> and its default value is
  \<open>const []\<close>.
\<close>

theorem defValue_table:
  "(isList p \<longrightarrow> defValue p = ''const []'')
   \<and> (isMap p \<or> isSet p \<longrightarrow> defValue p = ''const {}'')
   \<and> (\<not> isList p \<and> \<not> isMap p \<and> \<not> isSet p \<longrightarrow>
        defValue p =
          (if type p = ''String'' then [CHR 0x27, CHR 0x27]
           else if type p = ''num'' \<or> type p = ''int'' then ''0''
           else if type p = ''double'' then ''0.0''
           else if type p = ''bool'' then ''false''
           else if type p = ''dynamic'' then ''null''
           else type p @ ''()''))
   \<and> (rawType p = ''List<int>'' \<longrightarrow>
        isList p \<and> type (listType toVarName p) = ''int'' \<and> defValue p = ''const []'')"
proof -
  have a: "isList p \<longrightarrow> defValue p = ''const []''"
    by (simp add: defValue_def)
  have b: "isMap p \<or> isSet p \<longrightarrow> defValue p = ''const {}''"
    using collection_exclusive [of p] by (auto simp: defValue_def)
  have c: "\<not> isList p \<and> \<not> isMap p \<and> \<not> isSet p \<longrightarrow>
        defValue p =
          (if type p = ''String'' then [CHR 0x27, CHR 0x27]
           else if type p = ''num'' \<or> type p = ''int'' then ''0''
           else if type p = ''double'' then ''0.0''
           else if type p = ''bool'' then ''false''
           else if type p = ''dynamic'' then ''null''
           else type p @ ''()'')"
    by (simp add: defValue_def)
  have d: "isList p \<and> type (listType toVarName p) = ''int'' \<and> defValue p = ''const []''"
    if "rawType p = ''List<int>''"
  proof -
    have l: "isList p" and s: "\<not> isSet p"
      using that by (simp_all add: isList_def isSet_def isCollectionType_def)
    have "rawType (listType toVarName p) = ''int''"
      using that l s by (simp add: listType_def newDartClassProperty_def)
    then have "type (listType toVarName p) = ''int''"
      by (simp add: type_def isNullable_def endsWith_def)
    with l show ?thesis by (simp add: defValue_def)
  qed
  from a b c d show ?thesis by blast
qed

theorem defValue_table_witness:
  "defValue (newDartClassProperty id ''List<int>'' ''values'' 1 True False) = ''const []''
   \<and> type (listType id (newDartClassProperty id ''List<int>'' ''values'' 1 True False)) = ''int''
   \<and> defValue (newDartClassProperty id ''Map<String, int>'' ''m'' 1 True False) = ''const {}''
   \<and> defValue (newDartClassProperty id ''double?'' ''d'' 1 True False) = ''0.0''
   \<and> defValue (newDartClassProperty id ''Foo'' ''f'' 1 True False) = ''Foo()''"
proof -
  have 1: "rawType (newDartClassProperty id ''List<int>'' ''values'' 1 True False) = ''List<int>''"
    by (simp add: newDartClassProperty_def)
  have 2: "isMap (newDartClassProperty id ''Map<String, int>'' ''m'' 1 True False)"
    by (simp add: newDartClassProperty_def isMap_def isCollectionType_def)
  have 3: "\<not> isList (newDartClassProperty id ty n 1 True False)
      \<and> \<not> isMap (newDartClassProperty id ty n 1 True False)
      \<and> \<not> isSet (newDartClassProperty id ty n 1 True False)"
    if "ty = ''double?'' \<or> ty = ''Foo''" for ty n
    using that
    by (auto simp: newDartClassProperty_def isList_def isMap_def isSet_def isCollectionType_def)
  have 4: "type (newDartClassProperty id ''double?'' ''d'' 1 True False) = ''double''"
    "type (newDartClassProperty id ''Foo'' ''f'' 1 True False) = ''Foo''"
    by (simp_all add: newDartClassProperty_def type_def isNullable_def endsWith_def
        removeEnd_def)
  show ?thesis
    using defValue_table [of "newDartClassProperty id ''List<int>'' ''values'' 1 True False" id]
      defValue_table [of "newDartClassProperty id ''Map<String, int>'' ''m'' 1 True False" id]
      defValue_table [of "newDartClassProperty id ''double?'' ''d'' 1 True False" id]
      defValue_table [of "newDartClassProperty id ''Foo'' ''f'' 1 True False" id]
      1 2 3 [of "''double?''" "''d''"] 3 [of "''Foo''" "''f''"] 4
    by simp
qed

text \<open>
  C8. A property is primitive exactly when the type of \<open>listType\<close> is one of String, num,
  dynamic, bool, int, double, or the property is a Map. \<open>listType\<close> is the property itself
  when it is neither a List nor a Set, and carries the text between the angle brackets for
  \<open>List<e>\<close> and \<open>Set<e>\<close>.
\<close>

theorem isPrimitive_iff:
  "(isPrimitive toVarName p \<longleftrightarrow>
      type (listType toVarName p) \<in> {''String'', ''num'', ''dynamic'', ''bool'', ''int'', ''double''}
      \<or> isMap p)
   \<and> (\<not> isList p \<and> \<not> isSet p \<longrightarrow> listType toVarName p = p)
   \<and> (CHR ''>'' \<notin> set e \<and> (rawType p = ''List<'' @ e @ ''>'' \<or> rawType p = ''Set<'' @ e @ ''>'')
        \<longrightarrow> rawType (listType toVarName p) = e)"
proof -
  have a: "isPrimitive toVarName p \<longleftrightarrow>
      type (listType toVarName p) \<in> {''String'', ''num'', ''dynamic'', ''bool'', ''int'', ''double''}
      \<or> isMap p"
    by (auto simp: isPrimitive_def Let_def isInt_def isDouble_def)
  have b: "\<not> isList p \<and> \<not> isSet p \<longrightarrow> listType toVarName p = p"
    by (simp add: listType_def)
  have c: "rawType (listType toVarName p) = e"
    if e: "CHR ''>'' \<notin> set e" and r: "rawType p = ''List<'' @ e @ ''>''"
  proof -
    have l: "isList p" and s: "\<not> isSet p"
      using r by (simp_all add: isList_def isSet_def isCollectionType_def)
    have "replace (rawType p) ''List<'' [] = e @ ''>''"
      using replace_prefix [of "''List<''" "e @ ''>''" "[]"] r by simp
    then show ?thesis
      using l s r e by (simp add: listType_def newDartClassProperty_def replace_gt)
  qed
  have d: "rawType (listType toVarName p) = e"
    if e: "CHR ''>'' \<notin> set e" and r: "rawType p = ''Set<'' @ e @ ''>''"
  proof -
    have s: "isSet p"
      using r by (simp_all add: isSet_def isCollectionType_def)
    have "replace (rawType p) ''Set<'' [] = e @ ''>''"
      using replace_prefix [of "''Set<''" "e @ ''>''" "[]"] r by simp
    then show ?thesis
      using s r e by (simp add: listType_def newDartClassProperty_def replace_gt)
  qed
  from a b c d show ?thesis by blast
qed

theorem isPrimitive_iff_witness:
  "isPrimitive id (newDartClassProperty id ''Set<bool>'' ''flags'' 1 True False)
   \<and> \<not> isPrimitive id (newDartClassProperty id ''Foo'' ''f'' 1 True False)"
proof -
  have 1: "rawType (newDartClassProperty id ''Set<bool>'' ''flags'' 1 True False)
             = ''Set<'' @ ''bool'' @ ''>''"
    "CHR ''>'' \<notin> set ''bool''"
    by (simp_all add: newDartClassProperty_def)
  have 2: "\<not> isList (newDartClassProperty id ''Foo'' ''f'' 1 True False)"
    "\<not> isSet (newDartClassProperty id ''Foo'' ''f'' 1 True False)"
    "\<not> isMap (newDartClassProperty id ''Foo'' ''f'' 1 True False)"
    "\<not> isMap (newDartClassProperty id ''Set<bool>'' ''flags'' 1 True False)"
    by (simp_all add: newDartClassProperty_def isList_def isSet_def isMap_def
        isCollectionType_def)
  have 3: "type (newDartClassProperty id ''Foo'' ''f'' 1 True False) = ''Foo''"
    by (simp add: newDartClassProperty_def type_def isNullable_def endsWith_def)
  have 4: "type p = ''bool''" if "rawType p = ''bool''" for p
    using that by (simp add: type_def isNullable_def endsWith_def)
  show ?thesis
    using isPrimitive_iff [of id "newDartClassProperty id ''Set<bool>'' ''flags'' 1 True False" "''bool''"]
      isPrimitive_iff [of id "newDartClassProperty id ''Foo'' ''f'' 1 True False" "[]"]
      1 2 3 4
    by simp
qed

text \<open>
  C9. The class \<open>Reconstructor\<close> with the constructor text \<open>Reconstructor({this.a});\<close>:
  the text begins with the class name and \<open>({\<close> and has no leading \<open>const\<close>, yet
  \<open>hasNamedConstructor\<close> is false, because \<open>replace\<close> removes the \<open>const\<close> inside the
  name.
\<close>

theorem hasNamedConstructor_const_in_name:
  "\<not> hasNamedConstructor
       (newDartClass\<lparr> DartClass.name := Some ''Reconstructor'',
                       constr := Some ''Reconstructor({this.a});'' \<rparr>)
   \<and> startsWith ''Reconstructor({this.a});'' (''Reconstructor'' @ ''({'')"
  by (simp add: hasNamedConstructor_def newDartClass_def str_def trimLeft_def isWhiteSpace_def)

text \<open>
  C10. With no constructor text, \<open>hasNamedConstructor\<close> is true.
\<close>

theorem hasNamedConstructor_null: "constr c = None \<Longrightarrow> hasNamedConstructor c"
  by (simp add: hasNamedConstructor_def)

theorem hasNamedConstructor_null_witness:
  "constr newDartClass = None \<and> hasNamedConstructor newDartClass"
  using hasNamedConstructor_null [of newDartClass]
  by (simp add: newDartClass_def)

subsection \<open>The loop of generateClassReplacement\<close>










section \<open>Properties of Imports\<close>

lemma bucketLoop_filter:
  "dartImports (bucketLoop w vs b) = dartImports b @ filter (\<lambda>s. bucketOf w s = DartImport) vs"
  "packageImports (bucketLoop w vs b)
     = packageImports b @ filter (\<lambda>s. bucketOf w s = PackageImport) vs"
  "packageLocalImports (bucketLoop w vs b)
     = packageLocalImports b @ filter (\<lambda>s. bucketOf w s = PackageLocalImport) vs"
  "relativeImports (bucketLoop w vs b)
     = relativeImports b @ filter (\<lambda>s. bucketOf w s = RelativeImport) vs"
  "exports (bucketLoop w vs b) = exports b @ filter (\<lambda>s. bucketOf w s = ExportStatement) vs"
  "partStatements (bucketLoop w vs b)
     = partStatements b @ filter (\<lambda>s. bucketOf w s = PartStatement) vs"
  by (induction vs arbitrary: b; simp add: bucketOf_def)+

lemma addImportsLoop_block: "addImportsLoop xs acc = acc @ bucketBlock xs"
  by (induction xs acc rule: addImportsLoop.induct) (simp_all add: bucketBlock_def)

lemma addImports_block: "addImports xs acc = acc @ bucketBlock (sort xs)"
  by (simp add: addImports_def addImportsLoop_block)

lemma formatted_formattedSpec:
  "formatted folder im =
     (if values im = [] then [] else formattedSpec (workspaceOf folder im) (values im))"
  by (simp add: formatted_def hasImports_def Let_def bucketLoop_filter addImports_block
      formattedSpec_def bucketOrder_def sortedBucket_def)

lemma dropWhile_self: "xs = [] \<or> \<not> P (hd xs) \<Longrightarrow> dropWhile P xs = xs"
  by (cases xs) auto

lemma last_dropWhile: "dropWhile P xs \<noteq> [] \<Longrightarrow> last (dropWhile P xs) = last xs"
  by (induction xs) (auto split: if_splits)

lemma trimmed_trim: "trimmed (trim s)"
proof -
  define u where "u = dropWhile isWhiteSpace s"
  define t where "t = dropWhile isWhiteSpace (rev u)"
  have ts: "trim s = rev t"
    by (simp add: trim_def t_def u_def)
  show ?thesis
  proof (cases "t = []")
    case True
    then show ?thesis by (simp add: ts trimmed_def)
  next
    case False
    then have h: "\<not> isWhiteSpace (hd t)"
      unfolding t_def by (simp add: hd_dropWhile)
    have "rev u \<noteq> []"
      using False t_def by auto
    then have un: "u \<noteq> []" by simp
    have "last t = last (rev u)"
      using False unfolding t_def by (rule last_dropWhile)
    also have "\<dots> = hd u"
      using un by (simp add: last_rev)
    finally have l: "\<not> isWhiteSpace (last t)"
      using un unfolding u_def by (simp add: hd_dropWhile)
    from False h l show ?thesis
      by (simp add: ts trimmed_def hd_rev last_rev)
  qed
qed

lemma trim_trimmed: "trimmed s \<Longrightarrow> trim s = s"
proof -
  assume a: "trimmed s"
  show ?thesis
  proof (cases "s = []")
    case True
    then show ?thesis by (simp add: trim_def)
  next
    case False
    with a have h: "\<not> isWhiteSpace (hd s)" and l: "\<not> isWhiteSpace (last s)"
      by (simp_all add: trimmed_def)
    have 1: "dropWhile isWhiteSpace s = s"
      using h by (simp add: dropWhile_self)
    have 2: "dropWhile isWhiteSpace (rev s) = rev s"
      using l False by (simp add: dropWhile_self hd_rev)
    show ?thesis by (simp add: trim_def 1 2)
  qed
qed

lemma set_trim: "set (trim s) \<subseteq> set s"
proof -
  have "set (trim s) \<subseteq> set (rev (dropWhile isWhiteSpace s))"
    unfolding trim_def using set_dropWhileD by fastforce
  also have "\<dots> \<subseteq> set s"
    using set_dropWhileD by fastforce
  finally show ?thesis .
qed

lemma splitAcc_no_nl:
  "CHR 0x0A \<notin> set cur \<Longrightarrow> l \<in> set (splitAcc cur s) \<Longrightarrow> CHR 0x0A \<notin> set l"
proof (induction s arbitrary: cur)
  case Nil
  then show ?case by simp
next
  case (Cons c s)
  show ?case
  proof (cases "c = CHR 0x0A")
    case True
    with Cons.prems have "l = cur \<or> l \<in> set (splitAcc [] s)" by simp
    then show ?thesis
      using Cons.prems(1) Cons.IH [of "[]"] by auto
  next
    case False
    with Cons.prems have "l \<in> set (splitAcc (cur @ [c]) s)" by simp
    moreover have "CHR 0x0A \<notin> set (cur @ [c])"
      using False Cons.prems(1) by auto
    ultimately show ?thesis by (rule Cons.IH [rotated])
  qed
qed

lemma split_no_nl: "l \<in> set (split s) \<Longrightarrow> CHR 0x0A \<notin> set l"
  unfolding split_def using splitAcc_no_nl [of "[]"] by simp

lemma splitAcc_append:
  "CHR 0x0A \<notin> set s \<Longrightarrow> splitAcc cur (s @ rest) = splitAcc (cur @ s) rest"
  by (induction s arbitrary: cur) auto

lemma splitAcc_line:
  "CHR 0x0A \<notin> set s \<Longrightarrow> splitAcc cur (s @ nl @ rest) = (cur @ s) # splitAcc [] rest"
  by (simp add: splitAcc_append nl_def)

lemma split_lines:
  "\<forall>s \<in> set ls. CHR 0x0A \<notin> set s \<Longrightarrow> split (concat (map (\<lambda>s. s @ nl) ls)) = ls @ [[]]"
  unfolding split_def
  by (induction ls) (simp_all add: splitAcc_line)

declare readImportsLoop.simps [simp del]

lemma pushStatement_fields:
  "values (pushStatement i line im) = values im @ [line]"
  "projectName (pushStatement i line im) = projectName im"
  by (simp_all add: pushStatement_def Let_def)

lemma readImportsLoop_statement:
  assumes "i < length lines" and "isStatement (trim (lines ! i))"
  shows "readImportsLoop lines i im =
     (if Suc i = length lines
      then (pushStatement i (trim (lines ! i)) im)\<lparr> endAtLine := Some (int i + 1) \<rparr>
      else readImportsLoop lines (i + 1) (pushStatement i (trim (lines ! i)) im))"
proof -
  have "(int i = int (length lines) - 1) = (Suc i = length lines)"
    using assms(1) by auto
  then show ?thesis
    using assms
    by (subst readImportsLoop.simps) (simp add: isStatement_def pushStatement_def Let_def)
qed

lemma readImportsLoop_other:
  assumes "i < length lines" and "\<not> isStatement (trim (lines ! i))"
  shows "readImportsLoop lines i im =
     (if Suc i = length lines
         \<or> \<not> ((startsWith (trim (lines ! i)) ''//'' \<and> values im = [])
              \<or> startsWith (trim (lines ! i)) ''library'' \<or> isBlank (trim (lines ! i)))
      then (if startAtLine im \<noteq> None then
              (if i > 0 \<and> isBlank (lines ! (i - 1))
               then im\<lparr> endAtLine := Some (int i - 1) \<rparr>
               else im\<lparr> endAtLine := Some (int i) \<rparr>)
            else im)
      else readImportsLoop lines (i + 1) im)"
proof -
  have "(int i = int (length lines) - 1) = (Suc i = length lines)"
    using assms(1) by auto
  then show ?thesis
    using assms
    by (subst readImportsLoop.simps) (simp add: isStatement_def Let_def)
qed

lemma readImportsLoop_end: "\<not> i < length lines \<Longrightarrow> readImportsLoop lines i im = im"
  by (subst readImportsLoop.simps) simp

lemma stmtOk_trim_line:
  assumes "CHR 0x0A \<notin> set l" and "isStatement (trim l)"
  shows "stmtOk (trim l)"
  using assms set_trim [of l] by (auto simp: stmtOk_def trimmed_trim isStatement_def)

lemma readImportsLoop_inv:
  assumes "\<forall>l \<in> set lines. CHR 0x0A \<notin> set l"
    and "length lines - i = n"
    and "\<forall>s \<in> set (values im). stmtOk s"
  shows "(\<forall>s \<in> set (values (readImportsLoop lines i im)). stmtOk s)
         \<and> projectName (readImportsLoop lines i im) = projectName im"
  using assms(2,3)
proof (induction n arbitrary: i im)
  case 0
  then show ?case
    by (simp add: readImportsLoop_end)
next
  case (Suc n)
  then have i: "i < length lines" and n: "length lines - (i + 1) = n"
    by simp_all
  have ok: "CHR 0x0A \<notin> set (lines ! i)"
    using assms(1) i by simp
  note ih = Suc.IH [OF n]
  show ?case
  proof (cases "isStatement (trim (lines ! i))")
    case True
    then have s: "stmtOk (trim (lines ! i))"
      using ok by (rule stmtOk_trim_line [rotated])
    have v: "\<forall>s \<in> set (values (pushStatement i (trim (lines ! i)) im)). stmtOk s"
      using s Suc.prems(2) by (simp add: pushStatement_fields)
    show ?thesis
      using ih [OF v] v
      by (simp add: readImportsLoop_statement [OF i True] pushStatement_fields)
  next
    case False
    show ?thesis
      using Suc.prems(2) ih [of im]
      by (simp add: readImportsLoop_other [OF i False])
  qed
qed

lemma stmtOk_nonempty: "stmtOk e \<Longrightarrow> e \<noteq> []"
  by (auto simp: stmtOk_def)

lemma stmtOk_isStatement: "stmtOk e \<Longrightarrow> isStatement e"
  by (simp add: stmtOk_def isStatement_def)

lemma readImportsLoop_reparse:
  assumes "\<forall>e \<in> set M. e = [] \<or> stmtOk e"
    and "length M - i = n" and "i \<le> length M"
  shows "values (readImportsLoop (M @ [[]]) i im) = values im @ filter (\<lambda>e. e \<noteq> []) (drop i M)"
  using assms(2,3)
proof (induction n arbitrary: i im)
  case 0
  then have i: "i = length M" by simp
  have l: "i < length (M @ [[]])" and e: "(M @ [[]]) ! i = []"
    using i by simp_all
  have t: "\<not> isStatement (trim ((M @ [[]]) ! i))"
    by (simp add: e trim_def isStatement_def)
  show ?case
    by (subst readImportsLoop_other [OF l t]) (simp add: i)
next
  case (Suc n)
  then have i: "i < length M" and n: "length M - (i + 1) = n" and i': "i + 1 \<le> length M"
    by simp_all
  have l: "i < length (M @ [[]])" and e: "(M @ [[]]) ! i = M ! i"
    using i by (simp_all add: nth_append)
  have d: "drop i M = M ! i # drop (i + 1) M"
    using i by (simp add: Cons_nth_drop_Suc)
  note ih = Suc.IH [OF n i']
  show ?case
  proof (cases "M ! i = []")
    case True
    have t: "\<not> isStatement (trim ((M @ [[]]) ! i))"
      by (simp add: e True trim_def isStatement_def)
    have b: "isBlank (trim ((M @ [[]]) ! i))"
      by (simp add: e True trim_def isBlank_def)
    show ?thesis
      using i ih [of im] True
      by (simp add: readImportsLoop_other [OF l t] b d)
  next
    case False
    then have ok: "stmtOk (M ! i)"
      using assms(1) i by auto
    then have tr: "trim ((M @ [[]]) ! i) = M ! i"
      by (simp add: e trim_trimmed stmtOk_def)
    have t: "isStatement (trim ((M @ [[]]) ! i))"
      using ok by (simp add: tr stmtOk_isStatement)
    show ?thesis
      using i False ih [of "pushStatement i (M ! i) im"]
      by (simp add: readImportsLoop_statement [OF l t] tr d pushStatement_fields)
  qed
qed

lemma concat_bucketBlock:
  "concat (map bucketBlock Bs) = concat (map (\<lambda>s. s @ nl) (blockLines Bs))"
  by (induction Bs) (simp_all add: blockLines_def bucketBlock_def)

lemma blockLines_empty: "concat Bs = [] \<Longrightarrow> blockLines Bs = []"
  by (induction Bs) (simp_all add: blockLines_def)

lemma blockLines_last: "concat Bs \<noteq> [] \<Longrightarrow> \<exists>M. blockLines Bs = M @ [[]]"
proof (induction Bs)
  case Nil
  then show ?case by simp
next
  case (Cons b Bs)
  have c: "blockLines (b # Bs) = (if b = [] then [] else b @ [[]]) @ blockLines Bs"
    by (simp add: blockLines_def)
  show ?case
  proof (cases "concat Bs = []")
    case True
    with Cons.prems have "b \<noteq> []" by simp
    then show ?thesis
      using c blockLines_empty [OF True] by simp
  next
    case False
    then obtain M where "blockLines Bs = M @ [[]]"
      using Cons.IH by blast
    then have "blockLines (b # Bs) = ((if b = [] then [] else b @ [[]]) @ M) @ [[]]"
      using c by simp
    then show ?thesis by blast
  qed
qed

lemma filter_blockLines:
  "\<forall>b \<in> set Bs. [] \<notin> set b \<Longrightarrow> filter (\<lambda>e. e \<noteq> []) (blockLines Bs) = concat Bs"
proof (induction Bs)
  case Nil
  then show ?case by (simp add: blockLines_def)
next
  case (Cons b Bs)
  have c: "blockLines (b # Bs) = (if b = [] then [] else b @ [[]]) @ blockLines Bs"
    by (simp add: blockLines_def)
  have "filter (\<lambda>e. e \<noteq> []) b = b"
    using Cons.prems by (auto simp: filter_id_conv)
  then show ?case
    using Cons by (simp add: c)
qed

lemma set_blockLines: "e \<in> set (blockLines Bs) \<Longrightarrow> e = [] \<or> e \<in> set (concat Bs)"
  by (auto simp: blockLines_def split: if_splits)

lemma sort_sort_id: "sort (sort (xs :: string list)) = sort xs"
  by (simp add: sorted_sort_id)

lemma sortedBucket_concat:
  "sortedBucket w (concat (map (sortedBucket w vs) bucketOrder)) k = sortedBucket w vs k"
  unfolding sortedBucket_def bucketOrder_def
  by (cases k) (simp_all add: filter_sort sort_sort_id cong: conj_cong)

lemma set_buckets: "set (concat (map (sortedBucket w vs) bucketOrder)) = set vs"
proof -
  have "bucketOf w v \<in> set bucketOrder" for v
    by (cases "bucketOf w v") (simp_all add: bucketOrder_def)
  then show ?thesis
    by (auto simp: sortedBucket_def)
qed

lemma formattedSpec_concat:
  "formattedSpec w (concat (map (sortedBucket w vs) bucketOrder)) = formattedSpec w vs"
  by (simp add: formattedSpec_def sortedBucket_concat)

lemma newImports_fields:
  "(\<forall>s \<in> set (values (newImports text pn)). stmtOk s) \<and> projectName (newImports text pn) = pn"
proof (cases "text = []")
  case True
  then show ?thesis by (simp add: newImports_def readImports_def)
next
  case False
  have "\<forall>l \<in> set (split text). CHR 0x0A \<notin> set l"
    using split_no_nl by blast
  from readImportsLoop_inv [where i = 0 and im = "\<lparr> values = [], startAtLine = None,
      endAtLine = None, rawStatements = [], projectName = pn \<rparr>", OF this refl]
  show ?thesis
    using False by (simp add: newImports_def readImports_def)
qed

lemma workspaceOf_projectName:
  "projectName a = projectName b \<Longrightarrow> workspaceOf folder a = workspaceOf folder b"
  by (simp add: workspaceOf_def)

lemma reparse_formattedSpec:
  assumes ne: "vs \<noteq> []" and ok: "\<forall>v \<in> set vs. stmtOk v"
  shows "values (newImports (formattedSpec w vs) pn) = concat (map (sortedBucket w vs) bucketOrder)"
proof -
  define Bs where "Bs = map (sortedBucket w vs) bucketOrder"
  have sets: "set (concat Bs) = set vs"
    unfolding Bs_def by (rule set_buckets)
  then have cne: "concat Bs \<noteq> []"
    using ne by (metis set_empty)
  then obtain M where M: "blockLines Bs = M @ [[]]"
    using blockLines_last by blast
  have okB: "\<forall>e \<in> set (concat Bs). stmtOk e"
    using ok sets by simp
  have noempty: "\<forall>b \<in> set Bs. [] \<notin> set b"
    using okB stmtOk_nonempty by fastforce
  have Mok: "\<forall>e \<in> set M. e = [] \<or> stmtOk e"
  proof
    fix e
    assume "e \<in> set M"
    then have "e \<in> set (blockLines Bs)" by (simp add: M)
    then show "e = [] \<or> stmtOk e"
      using set_blockLines okB by blast
  qed
  have Mnl: "\<forall>e \<in> set M. CHR 0x0A \<notin> set e"
    using Mok by (auto simp: stmtOk_def)
  have "filter (\<lambda>e. e \<noteq> []) (blockLines Bs) = concat Bs"
    using noempty by (rule filter_blockLines)
  then have fM: "filter (\<lambda>e. e \<noteq> []) M = concat Bs"
    by (simp add: M)
  then have Mne: "M \<noteq> []"
    using cne by auto
  define t where "t = concat (map (\<lambda>s. s @ nl) M)"
  have "concat (map bucketBlock Bs) = t @ nl"
    by (simp add: concat_bucketBlock M t_def)
  then have "concat (map (\<lambda>k. bucketBlock (sortedBucket w vs k)) bucketOrder) = t @ nl"
    by (simp add: Bs_def comp_def)
  then have spec: "formattedSpec w vs = t"
    by (simp add: formattedSpec_def removeEnd_append)
  have tne: "t \<noteq> []"
    using Mne by (cases M) (simp_all add: t_def nl_def)
  have sp: "split t = M @ [[]]"
    unfolding t_def using Mnl by (rule split_lines)
  have "values (newImports t pn) = filter (\<lambda>e. e \<noteq> []) (drop 0 M)"
    using tne readImportsLoop_reparse [where i = 0, OF Mok refl]
    by (simp add: newImports_def readImports_def sp)
  then show ?thesis
    by (simp add: spec fM Bs_def)
qed

text \<open>
  C5. The formatted text is made of six buckets in a fixed order: imports of \<open>dart:\<close>,
  imports of other packages, imports of packages of the workspace, relative imports,
  exports and parts. Each bucket is sorted, each non-empty bucket is followed by one blank
  line, and the trailing blank line is stripped. The block of a package import followed
  by the import of \<open>dart:async\<close> is formatted as the \<open>dart:async\<close> import, a blank
  line, and the package import.
\<close>

theorem formatted_buckets:
  "formatted folder im =
     (if values im = [] then []
      else removeEnd
             (concat (map (\<lambda>k. bucketBlock
                                (sort (filter (\<lambda>s. bucketOf (workspaceOf folder im) s = k)
                                         (values im))))
                        [DartImport, PackageImport, PackageLocalImport, RelativeImport,
                         ExportStatement, PartStatement])) nl)
   \<and> formatted folder
         (newImports (''import 'package:flutter/material.dart';'' @ nl @ ''import 'dart:async';'') pn)
       = ''import 'dart:async';'' @ nl @ nl @ ''import 'package:flutter/material.dart';'' @ nl"
proof -
  have a: "formatted folder im =
     (if values im = [] then []
      else removeEnd
             (concat (map (\<lambda>k. bucketBlock
                                (sort (filter (\<lambda>s. bucketOf (workspaceOf folder im) s = k)
                                         (values im))))
                        [DartImport, PackageImport, PackageLocalImport, RelativeImport,
                         ExportStatement, PartStatement])) nl)"
    by (simp add: formatted_formattedSpec formattedSpec_def sortedBucket_def bucketOrder_def)
  define p where "p = ''import 'package:flutter/material.dart';''"
  define d where "d = ''import 'dart:async';''"
  define im0 where "im0 = newImports (p @ nl @ d) pn"
  define w where "w = workspaceOf folder im0"
  have sp: "split (p @ nl @ d) = [p, d]"
    by (simp add: split_def p_def d_def nl_def)
  have tp: "trim p = p" and td: "trim d = d"
    by (simp_all add: trim_def p_def d_def isWhiteSpace_def)
  have sp': "isStatement p" "isStatement d"
    by (simp_all add: isStatement_def p_def d_def)
  have ne: "p \<noteq> []"
    by (simp add: p_def)
  have v: "values im0 = [p, d]"
    unfolding im0_def newImports_def readImports_def
    by (simp add: ne sp readImportsLoop_statement tp td sp' pushStatement_fields)
  have bd: "bucketOf w d = DartImport"
    by (simp add: bucketOf_def d_def)
  have bp: "bucketOf w p = PackageImport \<or> bucketOf w p = PackageLocalImport"
    by (simp add: bucketOf_def p_def)
  have "concat (map (\<lambda>k. bucketBlock (sortedBucket w [p, d] k)) bucketOrder)
          = (d @ nl @ nl @ p @ nl) @ nl"
    using bp by (auto simp: sortedBucket_def bucketOrder_def bd bucketBlock_def)
  then have "formattedSpec w [p, d] = d @ nl @ nl @ p @ nl"
    unfolding formattedSpec_def by (simp only: removeEnd_append)
  then have "formatted folder im0 = d @ nl @ nl @ p @ nl"
    by (simp add: formatted_formattedSpec v w_def)
  then have b: "formatted folder
         (newImports (''import 'package:flutter/material.dart';'' @ nl @ ''import 'dart:async';'') pn)
       = ''import 'dart:async';'' @ nl @ nl @ ''import 'package:flutter/material.dart';'' @ nl"
    by (simp only: im0_def p_def d_def)
  show ?thesis
    by (intro conjI a b)
qed

theorem formatted_buckets_witness:
  "formatted None (newImports sampleImports (Some ''app'')) = sampleFormatted"
proof -
  define im where "im = newImports sampleImports (Some ''app'')"
  have "formatted None im =
     (if values im = [] then []
      else removeEnd
             (concat (map (\<lambda>k. bucketBlock
                                (sort (filter (\<lambda>s. bucketOf (workspaceOf None im) s = k)
                                         (values im))))
                        [DartImport, PackageImport, PackageLocalImport, RelativeImport,
                         ExportStatement, PartStatement])) nl)"
    using formatted_buckets [of None im] by (rule conjunct1)
  moreover have "(if values im = [] then []
      else removeEnd
             (concat (map (\<lambda>k. bucketBlock
                                (sort (filter (\<lambda>s. bucketOf (workspaceOf None im) s = k)
                                         (values im))))
                        [DartImport, PackageImport, PackageLocalImport, RelativeImport,
                         ExportStatement, PartStatement])) nl) = sampleFormatted"
    unfolding im_def by code_simp
  ultimately show ?thesis
    by (simp only: im_def)
qed

text \<open>
  C2. Formatting is idempotent: reading the formatted text of an import block with
  \<open>readImports\<close> and formatting it again gives the same text.
\<close>

theorem formatted_idempotent:
  "formatted folder (newImports (formatted folder (newImports text pn)) pn)
     = formatted folder (newImports text pn)"
proof (cases "values (newImports text pn) = []")
  case True
  then have "formatted folder (newImports text pn) = []"
    by (simp add: formatted_formattedSpec)
  moreover have "formatted folder (newImports [] pn) = []"
    by (simp add: formatted_formattedSpec newImports_def readImports_def)
  ultimately show ?thesis by simp
next
  case False
  define im where "im = newImports text pn"
  define w where "w = workspaceOf folder im"
  define vs where "vs = values im"
  have ok: "\<forall>v \<in> set vs. stmtOk v" and ne: "vs \<noteq> []"
    using newImports_fields [of "text" pn] False by (simp_all add: vs_def im_def)
  have f: "formatted folder im = formattedSpec w vs"
    using ne by (simp add: formatted_formattedSpec w_def vs_def)
  define im' where "im' = newImports (formattedSpec w vs) pn"
  have v': "values im' = concat (map (sortedBucket w vs) bucketOrder)"
    unfolding im'_def using ne ok by (rule reparse_formattedSpec)
  have "set (values im') = set vs"
    by (simp only: v' set_buckets)
  then have ne': "values im' \<noteq> []"
    using ne by (metis set_empty)
  have "projectName im' = projectName im"
    using newImports_fields [of "formattedSpec w vs" pn] newImports_fields [of "text" pn]
    by (simp add: im'_def im_def)
  then have w': "workspaceOf folder im' = w"
    unfolding w_def by (rule workspaceOf_projectName)
  have "formatted folder im' = formattedSpec w (values im')"
    using ne' by (simp add: formatted_formattedSpec w')
  also have "\<dots> = formattedSpec w vs"
    by (simp only: v' formattedSpec_concat)
  finally show ?thesis
    by (simp add: f im'_def im_def [symmetric])
qed

theorem formatted_idempotent_witness:
  "formatted None (newImports sampleFormatted (Some ''app'')) = sampleFormatted"
proof -
  have "formatted None (newImports sampleImports (Some ''app'')) = sampleFormatted"
    by code_simp
  with formatted_idempotent [of None sampleImports "Some ''app''"]
  show ?thesis by simp
qed



end
